theory Spec2Isabelle
  imports Complex_Main "HOL-Library.Sublist" "HOL-Library.Code_Target_Numeral"
begin

section \<open>Leaderboard module of the quiz bot\<close>

text \<open>
  A shallow embedding of \<^verbatim>\<open>src/leaderboard_module.py\<close>: the store
  (\<^verbatim>\<open>load_results\<close>, \<^verbatim>\<open>save_results\<close>, \<^verbatim>\<open>record_quiz_result\<close>), the ranker
  (\<^verbatim>\<open>get_leaderboard\<close>) and the reporter (\<^verbatim>\<open>format_time\<close>,
  \<^verbatim>\<open>generate_leaderboard_message\<close>).

  Conventions of the model.
  \<^item> A Python number is an \<open>int\<close> or a \<open>float\<close>. A float is represented by the exact
    rational value of the double. The float operators of \<^verbatim>\<open>format_time\<close> round to
    the nearest double as CPython does; comparison, negation and the conversion to
    text are exact in Python too; the quotient of \<^verbatim>\<open>total_seconds\<close> is taken exact.
    NaN and infinite doubles are outside the model. The only infinity of the program,
    \<^verbatim>\<open>float('inf')\<close> as the default sort key of a missing completion time, is a
    constructor of its own.
  \<^item> A stored result is the dictionary the module writes, with its eight keys; a key
    may be missing on read (the module reads every field with \<^verbatim>\<open>.get\<close>), so each
    field is an \<open>option\<close>. A field that is present holds a value of the type the
    module writes: a string, an integer or a number.
  \<^item> An exception is a value \<open>Inl e\<close> of a sum type; the filesystem is an explicit
    state, threaded through every function that touches it.
  \<^item> The text of the results file is represented by what \<^verbatim>\<open>json.load\<close> makes of
    it: the serialization of a collection, a proper prefix of one, the empty text,
    other text that is not JSON, or bytes that are not UTF-8. A JSON document that
    is not a list of result objects is outside the model.
  \<^item> Of the failures of the operating system, the model has the ones the store is
    specified against: a missing directory or file, a file without read or write
    permission, and a device that fills up during a write. The path \<^verbatim>\<open>data\<close> is
    either missing or a directory, and a missing directory can always be created.
\<close>

subsection \<open>Python values\<close>

datatype pynum = PyInt int | PyFloat rat

fun num_val :: "pynum \<Rightarrow> rat" where
  "num_val (PyInt i) = of_int i"
| "num_val (PyFloat q) = q"

datatype py_error =
    FileNotFoundError
  | PermissionError
  | JSONDecodeError
  | UnicodeDecodeError
  | NoSpaceError
  | TypeError

text \<open>\<^verbatim>\<open>str(n)\<close> for an integer: decimal digits, a leading minus sign when negative.\<close>

definition digit_char :: "nat \<Rightarrow> char" where
  "digit_char d = ''0123456789'' ! d"

fun str_nat :: "nat \<Rightarrow> string" where
  "str_nat n = (if n < 10 then [digit_char n] else str_nat (n div 10) @ [digit_char (n mod 10)])"

declare str_nat.simps [simp del]

definition str_int :: "int \<Rightarrow> string" where
  "str_int i = (if i < 0 then CHR ''-'' # str_nat (nat (- i)) else str_nat (nat i))"

text \<open>A quiz identifier is passed as an \<open>int\<close> or a \<open>str\<close>; \<^verbatim>\<open>str(quiz_id)\<close> normalizes it.\<close>

datatype quiz_ident = IntId int | StrId string

fun str_of_id :: "quiz_ident \<Rightarrow> string" where
  "str_of_id (IntId i) = str_int i"
| "str_of_id (StrId s) = s"

subsection \<open>Result records\<close>

record result =
  quiz_id :: "string option"
  user_id :: "string option"
  user_name :: "string option"
  score :: "pynum option"
  correct_answers :: "int option"
  total_questions :: "int option"
  completion_time :: "pynum option"
  timestamp :: "string option"

text \<open>\<^verbatim>\<open>d.get(key, default)\<close>.\<close>

definition get_or :: "'a option \<Rightarrow> 'a \<Rightarrow> 'a" where
  "get_or field dflt = (case field of None \<Rightarrow> dflt | Some v \<Rightarrow> v)"

subsection \<open>The filesystem\<close>

text \<open>
  What the module can observe of the filesystem: the entry at \<^verbatim>\<open>data\<close> (nothing, or a
  directory that may hold \<^verbatim>\<open>leaderboard_results.json\<close>), the permissions and the
  text of that file, and whether the device is full. Everything else of the
  filesystem is the extension part of the record.
\<close>

datatype file_content =
    Json "result list"
  | Partial "result list"
  | Empty
  | Garbage
  | BadBytes

datatype file_node = RegularFile (readable: bool) (writable: bool) (content: file_content)

datatype dir_node = NoEntry | Dir "file_node option"

record filesystem =
  data :: dir_node
  device_full :: bool

text \<open>\<^verbatim>\<open>os.path.exists(RESULTS_FILE)\<close>.\<close>

definition path_exists :: "'a filesystem_scheme \<Rightarrow> bool" where
  "path_exists fs = (case data fs of Dir (Some f) \<Rightarrow> True | _ \<Rightarrow> False)"

text \<open>\<^verbatim>\<open>os.makedirs(os.path.dirname(RESULTS_FILE), exist_ok=True)\<close>.\<close>

definition makedirs :: "'a filesystem_scheme \<Rightarrow> 'a filesystem_scheme" where
  "makedirs fs = (case data fs of NoEntry \<Rightarrow> fs\<lparr>data := Dir None\<rparr> | Dir f \<Rightarrow> fs)"

text \<open>\<^verbatim>\<open>open(RESULTS_FILE, 'r', encoding='utf-8')\<close>.\<close>

definition open_read :: "'a filesystem_scheme \<Rightarrow> py_error + file_node" where
  "open_read fs =
     (case data fs of
        Dir (Some f) \<Rightarrow> if readable f then Inr f else Inl PermissionError
      | _ \<Rightarrow> Inl FileNotFoundError)"

text \<open>\<^verbatim>\<open>json.load(f)\<close>: reads the whole file, decodes it as UTF-8 and parses it.\<close>

definition json_load :: "file_node \<Rightarrow> py_error + result list" where
  "json_load f =
     (case content f of
        Json v \<Rightarrow> Inr v
      | Partial v \<Rightarrow> Inl JSONDecodeError
      | Empty \<Rightarrow> Inl JSONDecodeError
      | Garbage \<Rightarrow> Inl JSONDecodeError
      | BadBytes \<Rightarrow> Inl UnicodeDecodeError)"

text \<open>
  \<^verbatim>\<open>open(RESULTS_FILE, 'w', encoding='utf-8')\<close>: the file is created when missing and
  truncated to length zero when present, before anything is written.
\<close>

definition open_write ::
  "'a filesystem_scheme \<Rightarrow> py_error + file_node \<times> 'a filesystem_scheme" where
  "open_write fs =
     (case data fs of
        NoEntry \<Rightarrow> Inl FileNotFoundError
      | Dir None \<Rightarrow>
          (let f = RegularFile True True Empty
           in Inr (f, fs\<lparr>data := Dir (Some f)\<rparr>))
      | Dir (Some old) \<Rightarrow>
          if writable old then
            (let f = RegularFile (readable old) (writable old) Empty
             in Inr (f, fs\<lparr>data := Dir (Some f)\<rparr>))
          else Inl PermissionError)"

text \<open>
  \<^verbatim>\<open>json.dump(results, f, indent=2, ensure_ascii=False)\<close> and the close of the file: the
  serialization reaches the file piece by piece; on a full device the write raises
  and the file keeps the pieces written so far, a proper prefix of the serialization.
\<close>

definition json_dump ::
  "result list \<Rightarrow> file_node \<Rightarrow> 'a filesystem_scheme \<Rightarrow> (py_error + unit) \<times> 'a filesystem_scheme" where
  "json_dump results f fs =
     (if device_full fs then
        (Inl NoSpaceError,
         fs\<lparr>data := Dir (Some (RegularFile (readable f) (writable f) (Partial results)))\<rparr>)
      else (Inr (), fs\<lparr>data := Dir (Some (RegularFile (readable f) (writable f) (Json results)))\<rparr>))"

subsection \<open>Store\<close>

text \<open>The \<^verbatim>\<open>except (json.JSONDecodeError, FileNotFoundError): return []\<close> clause.\<close>

definition except_decode_or_missing :: "py_error + result list \<Rightarrow> py_error + result list" where
  "except_decode_or_missing r =
     (case r of
        Inl e \<Rightarrow> if e = JSONDecodeError \<or> e = FileNotFoundError then Inr [] else Inl e
      | Inr v \<Rightarrow> Inr v)"

definition load_results ::
  "'a filesystem_scheme \<Rightarrow> (py_error + result list) \<times> 'a filesystem_scheme" where
  "load_results fs =
     (if \<not> path_exists fs then (Inr [], makedirs fs)
      else
        (except_decode_or_missing
           (case open_read fs of
              Inl e \<Rightarrow> Inl e
            | Inr f \<Rightarrow> json_load f), fs))"

definition save_results ::
  "result list \<Rightarrow> 'a filesystem_scheme \<Rightarrow> (py_error + unit) \<times> 'a filesystem_scheme" where
  "save_results results fs =
     (let fs1 = makedirs fs
      in case open_write fs1 of
           Inl e \<Rightarrow> (Inl e, fs1)
         | Inr (f, fs2) \<Rightarrow> json_dump results f fs2)"

text \<open>
  A \<^verbatim>\<open>datetime\<close> is a number of microseconds, naive or aware of its time zone;
  subtracting a naive from an aware one (or the reverse) raises \<^verbatim>\<open>TypeError\<close>. An
  argument that is not an instance of \<^verbatim>\<open>datetime\<close> is \<open>None\<close>.
\<close>

datatype datetime = Naive (micros: int) | Aware (micros: int)

fun datetime_sub :: "datetime \<Rightarrow> datetime \<Rightarrow> py_error + int" where
  "datetime_sub (Naive a) (Naive b) = Inr (a - b)"
| "datetime_sub (Aware a) (Aware b) = Inr (a - b)"
| "datetime_sub a b = Inl TypeError"

text \<open>\<^verbatim>\<open>timedelta.total_seconds()\<close>.\<close>

definition total_seconds :: "int \<Rightarrow> pynum" where
  "total_seconds delta = PyFloat (of_int delta / 1000000)"

text \<open>Lines 62 to 66 of the module: the completion time of a submission.\<close>

definition completion_seconds :: "datetime option \<Rightarrow> datetime option \<Rightarrow> py_error + pynum" where
  "completion_seconds start_time end_time =
     (case (start_time, end_time) of
        (Some s, Some e) \<Rightarrow>
          (case datetime_sub e s of Inl err \<Rightarrow> Inl err | Inr d \<Rightarrow> Inr (total_seconds d))
      | _ \<Rightarrow> Inr (PyInt 0))"

text \<open>
  \<^verbatim>\<open>record_quiz_result\<close>; \<open>now\<close> is the text of \<^verbatim>\<open>datetime.now().isoformat()\<close>.
\<close>

definition record_quiz_result ::
  "string \<Rightarrow> 'a filesystem_scheme \<Rightarrow> quiz_ident \<Rightarrow> int \<Rightarrow> string \<Rightarrow> pynum \<Rightarrow> int \<Rightarrow> int \<Rightarrow>
     datetime option \<Rightarrow> datetime option \<Rightarrow> (py_error + unit) \<times> 'a filesystem_scheme" where
  "record_quiz_result now fs quiz_id_arg user_id_arg user_name_arg score_arg correct_answers_arg
       total_questions_arg start_time end_time =
     (let quiz_id_str = str_of_id quiz_id_arg;
          user_id_str = str_int user_id_arg
      in case completion_seconds start_time end_time of
           Inl e \<Rightarrow> (Inl e, fs)
         | Inr seconds \<Rightarrow>
             (case load_results fs of
                (Inl e, fs1) \<Rightarrow> (Inl e, fs1)
              | (Inr results, fs1) \<Rightarrow>
                  (let new_result =
                         \<lparr>quiz_id = Some quiz_id_str, user_id = Some user_id_str,
                          user_name = Some user_name_arg, score = Some score_arg,
                          correct_answers = Some correct_answers_arg,
                          total_questions = Some total_questions_arg,
                          completion_time = Some seconds, timestamp = Some now\<rparr>
                   in save_results (results @ [new_result]) fs1)))"

subsection \<open>Ranker\<close>

text \<open>
  The sort key \<^verbatim>\<open>(-x.get("score", 0), x.get("completion_time", float('inf')))\<close>: a pair
  of the negated score and the completion time, the latter infinite when missing.
\<close>

datatype time_key = Seconds rat | Infinite

fun time_less :: "time_key \<Rightarrow> time_key \<Rightarrow> bool" where
  "time_less (Seconds a) (Seconds b) = (a < b)"
| "time_less (Seconds a) Infinite = True"
| "time_less Infinite b = False"

definition sort_key_of :: "'a result_scheme \<Rightarrow> rat \<times> time_key" where
  "sort_key_of x =
     (- num_val (get_or (score x) (PyInt 0)),
      case completion_time x of None \<Rightarrow> Infinite | Some t \<Rightarrow> Seconds (num_val t))"

text \<open>Python's \<open><\<close> on two pairs: the first components that differ decide.\<close>

definition tuple_less :: "rat \<times> time_key \<Rightarrow> rat \<times> time_key \<Rightarrow> bool" where
  "tuple_less a b = (if fst a \<noteq> fst b then fst a < fst b else time_less (snd a) (snd b))"

text \<open>
  \<^verbatim>\<open>sorted(xs, key=...)\<close>: Python guarantees a stable sort, and on a total preorder all
  stable sorts return the same list. It is modelled by the insertion sort that puts an
  element before the first one whose key is not smaller.
\<close>

fun insert_by_key :: "('a \<Rightarrow> rat \<times> time_key) \<Rightarrow> 'a \<Rightarrow> 'a list \<Rightarrow> 'a list" where
  "insert_by_key key x [] = [x]"
| "insert_by_key key x (y # ys) =
     (if tuple_less (key y) (key x) then y # insert_by_key key x ys else x # y # ys)"

definition sorted_by_key :: "('a \<Rightarrow> rat \<times> time_key) \<Rightarrow> 'a list \<Rightarrow> 'a list" where
  "sorted_by_key key xs = foldr (insert_by_key key) xs []"

text \<open>A list is ordered when no later key is smaller than an earlier one.\<close>

abbreviation key_ordered :: "('a \<Rightarrow> rat \<times> time_key) \<Rightarrow> 'a list \<Rightarrow> bool" where
  "key_ordered key \<equiv> sorted_wrt (\<lambda>a b. \<not> tuple_less (key b) (key a))"

text \<open>
  The slice \<^verbatim>\<open>xs[:limit]\<close>: a negative bound counts from the end of the list.
\<close>

definition slice_to :: "'a list \<Rightarrow> int \<Rightarrow> 'a list" where
  "slice_to xs limit =
     (if limit < 0 then take (nat (int (length xs) + limit)) xs else take (nat limit) xs)"

definition matches_quiz :: "string \<Rightarrow> 'a result_scheme \<Rightarrow> bool" where
  "matches_quiz q r = (quiz_id r = Some q)"

definition get_leaderboard ::
  "'a filesystem_scheme \<Rightarrow> quiz_ident option \<Rightarrow> int \<Rightarrow>
     (py_error + result list) \<times> 'a filesystem_scheme" where
  "get_leaderboard fs quiz_id_arg limit =
     (case load_results fs of
        (Inl e, fs') \<Rightarrow> (Inl e, fs')
      | (Inr results, fs') \<Rightarrow>
          (let results =
                 (case quiz_id_arg of
                    None \<Rightarrow> results
                  | Some q \<Rightarrow> filter (matches_quiz (str_of_id q)) results);
               sorted_results = sorted_by_key sort_key_of results
           in (Inr (slice_to sorted_results limit), fs')))"

subsection \<open>Reporter\<close>

text \<open>
  Float arithmetic rounds its exact result to the nearest double, ties to the even
  significand of 53 bits. \<open>ilog2 n\<close> is the position of the leading bit of \<open>n \<ge> 1\<close>,
  \<open>exponent x\<close> the \<open>e\<close> with \<open>2 ^ e \<le> x < 2 ^ (e + 1)\<close> for \<open>x > 0\<close>; the range of the
  exponent is not bounded (no overflow, no subnormal numbers: the results below are
  zero or of the size of the operands).
\<close>

definition round_half_even :: "rat \<Rightarrow> int" where
  "round_half_even x =
     (let f = \<lfloor>x\<rfloor>; d = x - of_int f
      in if d < 1 / 2 then f else if 1 / 2 < d then f + 1 else if even f then f else f + 1)"

fun ilog2 :: "nat \<Rightarrow> nat" where
  "ilog2 n = (if n < 2 then 0 else Suc (ilog2 (n div 2)))"

declare ilog2.simps [simp del]

definition pow2 :: "int \<Rightarrow> rat" where
  "pow2 e = (if 0 \<le> e then 2 ^ nat e else 1 / 2 ^ nat (- e))"

definition exponent :: "rat \<Rightarrow> int" where
  "exponent x =
     (if 1 \<le> x then int (ilog2 (nat \<lfloor>x\<rfloor>))
      else - int (ilog2 (nat (\<lceil>1 / x\<rceil> - 1))) - 1)"

definition round_double :: "rat \<Rightarrow> rat" where
  "round_double x =
     (if x = 0 then 0
      else (let ulp = pow2 (exponent \<bar>x\<bar> - 52)
            in of_int (round_half_even (x / ulp)) * ulp))"

text \<open>
  C's \<^verbatim>\<open>fmod\<close>, which is exact: the remainder has the sign of the dividend.
\<close>

definition truncate :: "rat \<Rightarrow> int" where
  "truncate q = (if 0 \<le> q then \<lfloor>q\<rfloor> else \<lceil>q\<rceil>)"

definition fmod :: "rat \<Rightarrow> rat \<Rightarrow> rat" where
  "fmod x y = x - y * of_int (truncate (x / y))"

text \<open>
  The operators of \<^verbatim>\<open>format_time\<close> on a number and the divisor 60 (a divisor that
  is not zero). On integers \<^verbatim>\<open>//\<close> and \<^verbatim>\<open>%\<close> are exact and round the quotient
  down. On floats they are CPython's \<^verbatim>\<open>_float_div_mod\<close> and \<^verbatim>\<open>float_rem\<close>: the
  remainder is \<^verbatim>\<open>fmod\<close>, moved to the sign of the divisor; the quotient is
  \<^verbatim>\<open>(vx - mod) / wx\<close> in double arithmetic, snapped to the nearest whole number
  (\<open>remainder\<close> and \<open>quotient\<close> are the variables \<^verbatim>\<open>mod\<close> and \<^verbatim>\<open>div\<close> of the C code).
  \<^verbatim>\<open>int()\<close> truncates toward zero.
\<close>

fun py_floordiv :: "pynum \<Rightarrow> int \<Rightarrow> pynum" where
  "py_floordiv (PyInt i) d = PyInt (i div d)"
| "py_floordiv (PyFloat vx) d =
     (let wx = of_int d;
          remainder = fmod vx wx;
          quotient = round_double (round_double (vx - remainder) / wx);
          quotient = (if remainder \<noteq> 0 \<and> ((wx < 0) \<noteq> (remainder < 0))
                      then round_double (quotient - 1) else quotient);
          floordiv = of_int \<lfloor>quotient\<rfloor>;
          floordiv = (if 1 / 2 < round_double (quotient - floordiv)
                      then round_double (floordiv + 1) else floordiv)
      in PyFloat floordiv)"

fun py_mod :: "pynum \<Rightarrow> int \<Rightarrow> pynum" where
  "py_mod (PyInt i) d = PyInt (i mod d)"
| "py_mod (PyFloat vx) d =
     (let wx = of_int d;
          remainder = fmod vx wx;
          remainder = (if remainder \<noteq> 0 \<and> ((wx < 0) \<noteq> (remainder < 0))
                       then round_double (remainder + wx) else remainder)
      in PyFloat remainder)"

fun py_int :: "pynum \<Rightarrow> int" where
  "py_int (PyInt i) = i"
| "py_int (PyFloat q) = (if 0 \<le> q then \<lfloor>q\<rfloor> else \<lceil>q\<rceil>)"

definition format_time :: "pynum \<Rightarrow> string" where
  "format_time seconds =
     (let minutes = py_int (py_floordiv seconds 60);
          secs = py_int (py_mod seconds 60)
      in str_int minutes @ ''m '' @ str_int secs @ ''s'')"

text \<open>
  The format \<^verbatim>\<open>{score:.1f}\<close>: the exact value rounded to one decimal, ties to the even
  digit, with the sign of the value.
\<close>

definition format_1f :: "rat \<Rightarrow> string" where
  "format_1f x =
     (let t = round_half_even (\<bar>x\<bar> * 10)
      in (if x < 0 then ''-'' else []) @ str_int (t div 10) @ ''.'' @ str_int (t mod 10))"

text \<open>\<^verbatim>\<open>float.is_integer()\<close>.\<close>

definition is_integer :: "rat \<Rightarrow> bool" where
  "is_integer q = (of_int \<lfloor>q\<rfloor> = q)"

text \<open>Lines 162 to 168 of the module: the text of a score.\<close>

definition format_score :: "pynum \<Rightarrow> string" where
  "format_score score_val =
     (case score_val of
        PyFloat q \<Rightarrow> if is_integer q then str_int (py_int (PyFloat q)) else format_1f q
      | PyInt i \<Rightarrow> str_int i)"

text \<open>
  The non-ASCII literals of the module, as the UTF-8 bytes of the source text.
\<close>

definition chart_icon :: string where
  "chart_icon = [CHR 0xC3, CHR 0xB0, CHR 0xC5, CHR 0xB8, CHR 0xE2, CHR 0x80, CHR 0x9C, CHR 0xC5, CHR 0xA0]"

definition medal_prefix :: string where
  "medal_prefix = [CHR 0xC3, CHR 0xB0, CHR 0xC5, CHR 0xB8, CHR 0xC2, CHR 0xA5]"

definition medal :: "nat \<Rightarrow> string" where
  "medal i =
     (if i = 1 then medal_prefix @ [CHR 0xE2, CHR 0x80, CHR 0xA1] @ '' ''
      else if i = 2 then medal_prefix @ [CHR 0xCB, CHR 0x86] @ '' ''
      else if i = 3 then medal_prefix @ [CHR 0xE2, CHR 0x80, CHR 0xB0] @ '' ''
      else [])"

definition newline :: string where
  "newline = [CHR 0x0A]"

text \<open>The text one turn of the loop appends to the message.\<close>

definition entry_text :: "nat \<Rightarrow> 'a result_scheme \<Rightarrow> int \<Rightarrow> string" where
  "entry_text i entry total_questions_val =
     (let user_name_val = get_or (user_name entry) ''Unknown'';
          score_val = get_or (score entry) (PyInt 0);
          correct_answers_val = get_or (correct_answers entry) 0;
          completion_time_val = get_or (completion_time entry) (PyInt 0);
          score_str = format_score score_val
      in medal i @ ''*'' @ str_nat i @ ''. '' @ user_name_val @ ''*'' @ newline @
         ''   Score: '' @ score_str @ ''  ('' @ str_int correct_answers_val @ ''/'' @
           str_int total_questions_val @ '' correct)'' @ newline @
         ''   Time: '' @ format_time completion_time_val @ newline @ newline)"

text \<open>The loop \<^verbatim>\<open>for i, entry in enumerate(leaderboard, 1)\<close>.\<close>

fun add_ranking :: "string \<Rightarrow> nat \<Rightarrow> 'a result_scheme list \<Rightarrow> int \<Rightarrow> string" where
  "add_ranking message i [] total_questions_val = message"
| "add_ranking message i (entry # rest) total_questions_val =
     add_ranking (message @ entry_text i entry total_questions_val) (Suc i) rest total_questions_val"

text \<open>Truth of a quiz identifier and of a title in a condition.\<close>

fun truthy_id :: "quiz_ident option \<Rightarrow> bool" where
  "truthy_id None = False"
| "truthy_id (Some (IntId i)) = (i \<noteq> 0)"
| "truthy_id (Some (StrId s)) = (s \<noteq> [])"

definition generate_leaderboard_message ::
  "'a filesystem_scheme \<Rightarrow> quiz_ident option \<Rightarrow> string option \<Rightarrow>
     (py_error + string) \<times> 'a filesystem_scheme" where
  "generate_leaderboard_message fs quiz_id_arg quiz_title =
     (case get_leaderboard fs quiz_id_arg 15 of
        (Inl e, fs') \<Rightarrow> (Inl e, fs')
      | (Inr leaderboard, fs') \<Rightarrow>
          (case leaderboard of
             [] \<Rightarrow>
               (Inr (chart_icon @ '' *Leaderboard*'' @ newline @ newline @
                     ''No quiz results recorded yet!''), fs')
           | sample_entry # others \<Rightarrow>
               (let title =
                      (if quiz_title \<noteq> None \<and> quiz_title \<noteq> Some [] then the quiz_title
                       else if truthy_id quiz_id_arg then ''Quiz '' @ str_of_id (the quiz_id_arg)
                       else ''All Quizzes'');
                    message = chart_icon @ '' *Leaderboard: '' @ title @ ''* '' @ chart_icon @
                              newline @ newline;
                    total_questions_val = get_or (total_questions sample_entry) 0;
                    message = add_ranking message 1 leaderboard total_questions_val
                in (Inr (message @ ''Use /play to start a new quiz!''), fs'))))"

subsection \<open>Sample data\<close>

definition example_entry ::
  "string \<Rightarrow> string \<Rightarrow> pynum \<Rightarrow> int \<Rightarrow> int \<Rightarrow> pynum option \<Rightarrow> result" where
  "example_entry q name sc correct questions t =
     \<lparr>quiz_id = Some q, user_id = Some name, user_name = Some name, score = Some sc,
      correct_answers = Some correct, total_questions = Some questions, completion_time = t,
      timestamp = Some ''2024-01-01T00:00:00''\<rparr>"

definition example_results :: "result list" where
  "example_results =
     [example_entry ''Q1'' ''A'' (PyInt 8) 8 10 (Some (PyFloat 50)),
      example_entry ''Q1'' ''B'' (PyInt 8) 8 10 (Some (PyFloat 40)),
      example_entry ''7'' ''D'' (PyFloat 8) 8 12 (Some (PyInt 40)),
      example_entry ''Q1'' ''C'' (PyInt 9) 9 10 (Some (PyFloat 60)),
      example_entry ''Q1'' ''E'' (PyFloat (17 / 2)) 9 10 None]"

definition example_fs :: filesystem where
  "example_fs =
     \<lparr>data = Dir (Some (RegularFile True True (Json example_results))), device_full = False\<rparr>"

text \<open>
  States of the filesystem: the results file without read permission, with text that
  is not JSON, missing together with its directory, and on a full device.
\<close>

definition unreadable_fs :: filesystem where
  "unreadable_fs =
     \<lparr>data = Dir (Some (RegularFile False True (Json example_results))), device_full = False\<rparr>"

definition garbage_fs :: filesystem where
  "garbage_fs = \<lparr>data = Dir (Some (RegularFile True True Garbage)), device_full = False\<rparr>"

definition fresh_fs :: filesystem where
  "fresh_fs = \<lparr>data = NoEntry, device_full = False\<rparr>"

definition full_fs :: filesystem where
  "full_fs =
     \<lparr>data = Dir (Some (RegularFile True True (Json example_results))), device_full = True\<rparr>"

section \<open>Properties\<close>

subsection \<open>The order of the sort keys\<close>

lemma time_less_irrefl: "\<not> time_less a a"
  by (cases a) auto

lemma time_less_trans: "time_less a b \<Longrightarrow> time_less b c \<Longrightarrow> time_less a c"
  by (cases a; cases b; cases c) auto

lemma time_less_linear: "time_less a b \<or> a = b \<or> time_less b a"
  by (cases a; cases b) auto

lemma tuple_less_irrefl: "\<not> tuple_less a a"
  by (simp add: tuple_less_def time_less_irrefl)

lemma tuple_less_trans: "tuple_less a b \<Longrightarrow> tuple_less b c \<Longrightarrow> tuple_less a c"
  unfolding tuple_less_def
  by (auto split: if_splits dest: time_less_trans)

lemma tuple_less_linear: "tuple_less a b \<or> a = b \<or> tuple_less b a"
  using time_less_linear [of "snd a" "snd b"]
  by (auto simp: tuple_less_def prod_eq_iff)

lemma tuple_less_asym: "tuple_less a b \<Longrightarrow> \<not> tuple_less b a"
  using tuple_less_trans tuple_less_irrefl by blast

lemma not_less_trans:
  "\<not> tuple_less b a \<Longrightarrow> \<not> tuple_less c b \<Longrightarrow> \<not> tuple_less c a"
  using tuple_less_linear [of a b] tuple_less_linear [of b c] tuple_less_trans tuple_less_irrefl
  by metis

subsection \<open>The stable sort\<close>

lemma set_insert_by_key: "set (insert_by_key key x ys) = insert x (set ys)"
  by (induction ys) auto

lemma length_insert_by_key: "length (insert_by_key key x ys) = Suc (length ys)"
  by (induction ys) auto

lemma sorted_by_key_Nil: "sorted_by_key key [] = []"
  by (simp add: sorted_by_key_def)

lemma sorted_by_key_Cons:
  "sorted_by_key key (x # xs) = insert_by_key key x (sorted_by_key key xs)"
  by (simp add: sorted_by_key_def)

lemma set_sorted_by_key: "set (sorted_by_key key xs) = set xs"
  by (induction xs) (simp_all add: sorted_by_key_Nil sorted_by_key_Cons set_insert_by_key)

lemma length_sorted_by_key: "length (sorted_by_key key xs) = length xs"
  by (induction xs) (simp_all add: sorted_by_key_Nil sorted_by_key_Cons length_insert_by_key)

lemma ordered_insert_by_key:
  "key_ordered key ys \<Longrightarrow> key_ordered key (insert_by_key key x ys)"
proof (induction ys)
  case Nil
  then show ?case by simp
next
  case (Cons y ys)
  show ?case
  proof (cases "tuple_less (key y) (key x)")
    case True
    with Cons show ?thesis
      by (auto simp: set_insert_by_key dest: tuple_less_asym)
  next
    case False
    have "\<forall>z\<in>set ys. \<not> tuple_less (key z) (key x)"
      using Cons.prems False not_less_trans [of "key y" "key x"] by auto
    with False Cons.prems show ?thesis by auto
  qed
qed

lemma ordered_sorted_by_key: "key_ordered key (sorted_by_key key xs)"
  by (induction xs) (simp_all add: sorted_by_key_Nil sorted_by_key_Cons ordered_insert_by_key)

lemma filter_insert_neg:
  "\<not> P x \<Longrightarrow> filter P (insert_by_key key x ys) = filter P ys"
  by (induction ys) auto

lemma filter_insert_pos:
  "key_ordered key ys \<Longrightarrow> P x \<Longrightarrow>
     filter P (insert_by_key key x ys) = insert_by_key key x (filter P ys)"
proof (induction ys)
  case Nil
  then show ?case by simp
next
  case (Cons y ys)
  show ?case
  proof (cases "tuple_less (key y) (key x)")
    case True
    with Cons show ?thesis by auto
  next
    case False
    have all: "\<forall>z\<in>set ys. \<not> tuple_less (key z) (key x)"
      using Cons.prems(1) False not_less_trans [of "key y" "key x"] by auto
    have "insert_by_key key x (filter P ys) = x # filter P ys"
      using all by (cases "filter P ys") (auto simp: filter_eq_Cons_iff)
    with False Cons.prems show ?thesis by auto
  qed
qed

lemma filter_sorted_by_key:
  "filter P (sorted_by_key key xs) = sorted_by_key key (filter P xs)"
  by (induction xs)
     (simp_all add: sorted_by_key_Nil sorted_by_key_Cons filter_insert_neg filter_insert_pos
        ordered_sorted_by_key)

lemma insert_same_key:
  "\<forall>y\<in>set ys. key y = key x \<Longrightarrow> insert_by_key key x ys = x # ys"
  by (cases ys) (auto simp: tuple_less_irrefl)

lemma stable_sorted_by_key:
  "filter (\<lambda>y. key y = k) (sorted_by_key key xs) = filter (\<lambda>y. key y = k) xs"
proof (induction xs)
  case Nil
  then show ?case by (simp add: sorted_by_key_Nil)
next
  case (Cons x xs)
  show ?case
  proof (cases "key x = k")
    case False
    then show ?thesis
      by (simp add: sorted_by_key_Cons filter_insert_neg Cons.IH)
  next
    case True
    have "filter (\<lambda>y. key y = k) (insert_by_key key x (sorted_by_key key xs))
          = insert_by_key key x (filter (\<lambda>y. key y = k) (sorted_by_key key xs))"
      using True by (simp add: filter_insert_pos ordered_sorted_by_key)
    also have "\<dots> = x # filter (\<lambda>y. key y = k) xs"
      using True by (simp add: Cons.IH insert_same_key)
    finally show ?thesis using True by (simp add: sorted_by_key_Cons)
  qed
qed

subsection \<open>The leaderboard view\<close>

lemma load_example: "load_results example_fs = (Inr example_results, example_fs)"
  by (simp add: load_results_def path_exists_def open_read_def example_fs_def
      json_load_def except_decode_or_missing_def)

lemma get_leaderboard_loaded:
  "load_results fs = (Inr stored, fs') \<Longrightarrow>
   get_leaderboard fs q limit =
     (Inr (slice_to (sorted_by_key sort_key_of
        (case q of None \<Rightarrow> stored | Some x \<Rightarrow> filter (matches_quiz (str_of_id x)) stored)) limit), fs')"
  by (simp add: get_leaderboard_def)

lemma slice_to_take: "\<exists>n. slice_to xs limit = take n xs"
  by (auto simp: slice_to_def)

lemma slice_to_all: "int (length xs) \<le> limit \<Longrightarrow> slice_to xs limit = xs"
  by (simp add: slice_to_def)

lemma not_less_keys:
  "\<not> tuple_less (sort_key_of b) (sort_key_of a) \<Longrightarrow>
   num_val (get_or (score b) (PyInt 0)) < num_val (get_or (score a) (PyInt 0)) \<or>
   (num_val (get_or (score a) (PyInt 0)) = num_val (get_or (score b) (PyInt 0)) \<and>
    (case completion_time b of
       None \<Rightarrow> True
     | Some tb \<Rightarrow> (case completion_time a of None \<Rightarrow> False | Some ta \<Rightarrow> num_val ta \<le> num_val tb)))"
  by (auto simp: tuple_less_def sort_key_of_def split: option.splits if_splits)

lemma ordered_adjacent:
  assumes "key_ordered key xs" and "Suc i < length xs"
  shows "\<not> tuple_less (key (xs ! Suc i)) (key (xs ! i))"
  using assms sorted_wrt_nth_less [of _ xs i "Suc i"] by simp

lemma prefix_filter_take: "prefix (filter P (take n xs)) (filter P xs)"
  by (metis append_take_drop_id filter_append prefixI)

text \<open>
  Claim C1. Whatever the stored result set, the quiz filter and the limit, the view of
  \<^verbatim>\<open>get_leaderboard\<close> is ordered: of two adjacent entries the first has the greater
  score, or the scores are equal and the first has the smaller or equal completion
  time, a missing completion time counting as infinitely slow (a missing score counts
  as 0). The sort is stable: the entries of the view with a given pair of keys are the
  first ones of the stored entries with these keys (of the chosen quiz), in their
  insertion order.
\<close>

theorem get_leaderboard_ranking_order:
  assumes "load_results fs = (Inr stored, fs')"
  shows "\<exists>view. get_leaderboard fs q limit = (Inr view, fs') \<and>
    (\<forall>i. Suc i < length view \<longrightarrow>
       num_val (get_or (score (view ! Suc i)) (PyInt 0)) < num_val (get_or (score (view ! i)) (PyInt 0)) \<or>
       (num_val (get_or (score (view ! i)) (PyInt 0)) = num_val (get_or (score (view ! Suc i)) (PyInt 0)) \<and>
        (case completion_time (view ! Suc i) of
           None \<Rightarrow> True
         | Some tb \<Rightarrow>
             (case completion_time (view ! i) of None \<Rightarrow> False | Some ta \<Rightarrow> num_val ta \<le> num_val tb)))) \<and>
    (\<forall>k. prefix (filter (\<lambda>r. sort_key_of r = k) view)
           (filter (\<lambda>r. sort_key_of r = k)
              (case q of None \<Rightarrow> stored | Some x \<Rightarrow> filter (matches_quiz (str_of_id x)) stored)))"
proof -
  define cands where
    "cands = (case q of None \<Rightarrow> stored | Some x \<Rightarrow> filter (matches_quiz (str_of_id x)) stored)"
  define view where "view = slice_to (sorted_by_key sort_key_of cands) limit"
  obtain n where n: "view = take n (sorted_by_key sort_key_of cands)"
    using slice_to_take view_def by blast
  have ret: "get_leaderboard fs q limit = (Inr view, fs')"
    using get_leaderboard_loaded [OF assms] by (simp add: view_def cands_def)
  have ord: "key_ordered sort_key_of view"
    unfolding n by (rule sorted_wrt_take) (rule ordered_sorted_by_key)
  have adj: "\<forall>i. Suc i < length view \<longrightarrow>
       num_val (get_or (score (view ! Suc i)) (PyInt 0)) < num_val (get_or (score (view ! i)) (PyInt 0)) \<or>
       (num_val (get_or (score (view ! i)) (PyInt 0)) = num_val (get_or (score (view ! Suc i)) (PyInt 0)) \<and>
        (case completion_time (view ! Suc i) of
           None \<Rightarrow> True
         | Some tb \<Rightarrow>
             (case completion_time (view ! i) of None \<Rightarrow> False | Some ta \<Rightarrow> num_val ta \<le> num_val tb)))"
    using ordered_adjacent [OF ord] not_less_keys by blast
  have stab: "\<forall>k. prefix (filter (\<lambda>r. sort_key_of r = k) view) (filter (\<lambda>r. sort_key_of r = k) cands)"
  proof
    fix k
    have "prefix (filter (\<lambda>r. sort_key_of r = k) view)
            (filter (\<lambda>r. sort_key_of r = k) (sorted_by_key sort_key_of cands))"
      unfolding n by (rule prefix_filter_take)
    then show "prefix (filter (\<lambda>r. sort_key_of r = k) view) (filter (\<lambda>r. sort_key_of r = k) cands)"
      by (simp add: stable_sorted_by_key)
  qed
  from ret adj stab show ?thesis
    unfolding cands_def by blast
qed

text \<open>The view of the sample data for all quizzes.\<close>

lemma example_view_all:
  "get_leaderboard example_fs None 15 =
     (Inr [example_results ! 3, example_results ! 4, example_results ! 1,
           example_results ! 2, example_results ! 0], example_fs)"
  by (simp add: get_leaderboard_loaded [OF load_example] sorted_by_key_def sort_key_of_def
      tuple_less_def slice_to_def get_or_def example_results_def example_entry_def)

theorem get_leaderboard_ranking_order_witness:
  "load_results example_fs = (Inr example_results, example_fs) \<and>
   (\<exists>view. get_leaderboard example_fs None 15 = (Inr view, example_fs) \<and>
      length view = 5 \<and>
      num_val (get_or (score (view ! 2)) (PyInt 0)) = num_val (get_or (score (view ! 3)) (PyInt 0)) \<and>
      completion_time (view ! 2) = Some (PyFloat 40) \<and> completion_time (view ! 3) = Some (PyInt 40) \<and>
      prefix (filter (\<lambda>r. sort_key_of r = (- 8, Seconds 40)) view)
             (filter (\<lambda>r. sort_key_of r = (- 8, Seconds 40)) example_results))"
proof -
  obtain view where
    v: "get_leaderboard example_fs None 15 = (Inr view, example_fs)" and
    adj: "\<forall>i. Suc i < length view \<longrightarrow>
       num_val (get_or (score (view ! Suc i)) (PyInt 0)) < num_val (get_or (score (view ! i)) (PyInt 0)) \<or>
       (num_val (get_or (score (view ! i)) (PyInt 0)) = num_val (get_or (score (view ! Suc i)) (PyInt 0)) \<and>
        (case completion_time (view ! Suc i) of
           None \<Rightarrow> True
         | Some tb \<Rightarrow>
             (case completion_time (view ! i) of None \<Rightarrow> False | Some ta \<Rightarrow> num_val ta \<le> num_val tb)))" and
    stab: "\<forall>k. prefix (filter (\<lambda>r. sort_key_of r = k) view)
           (filter (\<lambda>r. sort_key_of r = k) (case None of None \<Rightarrow> example_results
              | Some x \<Rightarrow> filter (matches_quiz (str_of_id x)) example_results))"
    using get_leaderboard_ranking_order [OF load_example, of None 15] by blast
  have view: "view = [example_results ! 3, example_results ! 4, example_results ! 1,
           example_results ! 2, example_results ! 0]"
    using v by (simp add: example_view_all)
  have len: "length view = 5" by (simp add: view)
  have tie: "num_val (get_or (score (view ! 2)) (PyInt 0)) = num_val (get_or (score (view ! 3)) (PyInt 0))"
    using adj [rule_format, of 2] len
    by (simp add: view example_results_def example_entry_def get_or_def)
  have t2: "completion_time (view ! 2) = Some (PyFloat 40)"
    by (simp add: view example_results_def example_entry_def)
  have t3: "completion_time (view ! 3) = Some (PyInt 40)"
    by (simp add: view example_results_def example_entry_def)
  have st: "prefix (filter (\<lambda>r. sort_key_of r = (- 8, Seconds 40)) view)
             (filter (\<lambda>r. sort_key_of r = (- 8, Seconds 40)) example_results)"
    using stab [rule_format, of "(- 8, Seconds 40)"] by simp
  from load_example v len tie t2 t3 st show ?thesis by blast
qed

text \<open>
  Claim C2. A limit \<open>L \<le> 0\<close> is claimed to give an empty view, of length
  \<open>min L n\<close>. The slice \<^verbatim>\<open>sorted_results[:limit]\<close> with a negative limit drops entries
  from the end instead: on the five sample results the limit \<open>-1\<close> returns four entries.
\<close>

theorem get_leaderboard_negative_limit:
  "get_leaderboard example_fs None (- 1) =
     (Inr [example_results ! 3, example_results ! 4, example_results ! 1, example_results ! 2],
      example_fs)"
  by (simp add: get_leaderboard_loaded [OF load_example] sorted_by_key_def sort_key_of_def
      tuple_less_def slice_to_def get_or_def example_results_def example_entry_def)

text \<open>For a limit that is not negative the view is the first \<open>limit\<close> sorted entries.\<close>

lemma get_leaderboard_length:
  assumes "load_results fs = (Inr stored, fs')" and "0 \<le> limit"
  shows "\<exists>view. get_leaderboard fs q limit = (Inr view, fs') \<and>
     view = take (nat limit) (sorted_by_key sort_key_of
        (case q of None \<Rightarrow> stored | Some x \<Rightarrow> filter (matches_quiz (str_of_id x)) stored)) \<and>
     int (length view) =
       min limit (int (length (case q of None \<Rightarrow> stored | Some x \<Rightarrow> filter (matches_quiz (str_of_id x)) stored)))"
  using assms(2) get_leaderboard_loaded [OF assms(1), of q limit]
  by (auto simp: slice_to_def length_sorted_by_key)

text \<open>
  Claim C3. The view for a quiz identifier \<open>x\<close> holds only records whose
  \<^verbatim>\<open>quiz_id\<close> is \<^verbatim>\<open>str(x)\<close>; when the limit is large enough to return every stored
  entry, it is the view for all quizzes restricted to the records of that quiz, in the
  same order.
\<close>

theorem get_leaderboard_filter:
  assumes "load_results fs = (Inr stored, fs')"
  shows "\<exists>view. get_leaderboard fs (Some x) limit = (Inr view, fs') \<and>
     (\<forall>r\<in>set view. quiz_id r = Some (str_of_id x)) \<and>
     (int (length stored) \<le> limit \<longrightarrow>
        (\<exists>every. get_leaderboard fs None limit = (Inr every, fs') \<and>
           view = filter (\<lambda>r. quiz_id r = Some (str_of_id x)) every))"
proof -
  define sel where "sel = filter (matches_quiz (str_of_id x)) stored"
  define view where "view = slice_to (sorted_by_key sort_key_of sel) limit"
  have ret: "get_leaderboard fs (Some x) limit = (Inr view, fs')"
    using get_leaderboard_loaded [OF assms, of "Some x" limit] by (simp add: view_def sel_def)
  obtain n where n: "view = take n (sorted_by_key sort_key_of sel)"
    using slice_to_take view_def by blast
  have "set view \<subseteq> set sel"
    unfolding n using set_take_subset [of n "sorted_by_key sort_key_of sel"]
    by (simp add: set_sorted_by_key)
  then have only: "\<forall>r\<in>set view. quiz_id r = Some (str_of_id x)"
    by (auto simp: sel_def matches_quiz_def)
  have sub: "\<exists>every. get_leaderboard fs None limit = (Inr every, fs') \<and>
           view = filter (\<lambda>r. quiz_id r = Some (str_of_id x)) every"
    if big: "int (length stored) \<le> limit"
  proof -
    have "length sel \<le> length stored"
      by (simp add: sel_def)
    then have v: "view = sorted_by_key sort_key_of sel"
      using big by (simp add: view_def slice_to_all length_sorted_by_key)
    have a: "get_leaderboard fs None limit = (Inr (sorted_by_key sort_key_of stored), fs')"
      using get_leaderboard_loaded [OF assms, of None limit] big
      by (simp add: slice_to_all length_sorted_by_key)
    have "view = filter (matches_quiz (str_of_id x)) (sorted_by_key sort_key_of stored)"
      by (simp add: v sel_def filter_sorted_by_key)
    then have "view = filter (\<lambda>r. quiz_id r = Some (str_of_id x)) (sorted_by_key sort_key_of stored)"
      by (simp add: matches_quiz_def [abs_def])
    with a show ?thesis by blast
  qed
  from ret only sub show ?thesis by blast
qed

theorem get_leaderboard_filter_witness:
  "load_results example_fs = (Inr example_results, example_fs) \<and>
   int (length example_results) \<le> 15 \<and>
   (\<exists>view every.
      get_leaderboard example_fs (Some (IntId 7)) 15 = (Inr view, example_fs) \<and>
      get_leaderboard example_fs None 15 = (Inr every, example_fs) \<and>
      view = filter (\<lambda>r. quiz_id r = Some ''7'') every \<and> view = [example_results ! 2])"
proof -
  have big: "int (length example_results) \<le> 15"
    by (simp add: example_results_def)
  have s7: "str_int 7 = ''7''"
    by (simp add: str_int_def str_nat.simps digit_char_def)
  obtain view every where
    v: "get_leaderboard example_fs (Some (IntId 7)) 15 = (Inr view, example_fs)" and
    e: "get_leaderboard example_fs None 15 = (Inr every, example_fs)" and
    f: "view = filter (\<lambda>r. quiz_id r = Some (str_of_id (IntId 7))) every"
    using get_leaderboard_filter [OF load_example, of "IntId 7" 15] big by blast
  have "every = [example_results ! 3, example_results ! 4, example_results ! 1,
           example_results ! 2, example_results ! 0]"
    using e by (simp add: example_view_all)
  then have "view = [example_results ! 2]"
    using f by (simp add: s7 example_results_def example_entry_def)
  with load_example big v e f s7 show ?thesis by auto
qed

subsection \<open>The store\<close>

text \<open>
  Claim C4, as stated, fails on a results file without read permission: the
  \<^verbatim>\<open>except\<close> clause of \<^verbatim>\<open>load_results\<close> names \<^verbatim>\<open>JSONDecodeError\<close> and
  \<^verbatim>\<open>FileNotFoundError\<close> only, so \<^verbatim>\<open>PermissionError\<close> reaches the caller.
\<close>

theorem load_results_unreadable:
  "load_results unreadable_fs = (Inl PermissionError, unreadable_fs)"
  by (simp add: load_results_def path_exists_def open_read_def unreadable_fs_def
      except_decode_or_missing_def)

text \<open>
  Claim C4, amended. \<^verbatim>\<open>load_results\<close> returns the persisted collection when the file
  can be read and parses; it returns the empty collection when the file is absent or
  its text is not JSON (a truncated serialization, an empty file, other text); a file
  that cannot be opened for reading, or whose bytes are not UTF-8, raises to the
  caller.
\<close>

theorem load_results_outcome:
  "fst (load_results fs) =
     (case data fs of
        NoEntry \<Rightarrow> Inr []
      | Dir None \<Rightarrow> Inr []
      | Dir (Some f) \<Rightarrow>
          if readable f then
            (case content f of
               Json stored \<Rightarrow> Inr stored
             | Partial pending \<Rightarrow> Inr []
             | Empty \<Rightarrow> Inr []
             | Garbage \<Rightarrow> Inr []
             | BadBytes \<Rightarrow> Inl UnicodeDecodeError)
          else Inl PermissionError)"
  by (simp add: load_results_def path_exists_def open_read_def json_load_def
      except_decode_or_missing_def split: dir_node.split option.split file_content.split)

theorem load_results_outcome_witness:
  "fst (load_results garbage_fs) = Inr [] \<and> fst (load_results example_fs) = Inr example_results \<and>
   fst (load_results fresh_fs) = Inr []"
  using load_results_outcome [of garbage_fs] load_results_outcome [of example_fs]
    load_results_outcome [of fresh_fs]
  by (simp add: garbage_fs_def example_fs_def fresh_fs_def)

text \<open>
  Claim C10. When the results file does not exist, \<^verbatim>\<open>load_results\<close> returns the empty
  list and leaves the directory \<^verbatim>\<open>data\<close> in place, created if it was missing:
  a read changes durable state. Nothing else of the filesystem changes, a directory
  that is already there is left as it is, and a second call changes nothing.
\<close>

theorem load_results_creates_directory:
  assumes "\<not> path_exists fs"
  shows "\<exists>fs'. load_results fs = (Inr [], fs') \<and>
           data fs' = Dir None \<and> device_full fs' = device_full fs \<and>
           filesystem.more fs' = filesystem.more fs \<and>
           (data fs = Dir None \<longrightarrow> fs' = fs) \<and>
           load_results fs' = (Inr [], fs')"
proof -
  have absent: "data fs = NoEntry \<or> data fs = Dir None"
    using assms by (auto simp: path_exists_def split: dir_node.splits option.splits)
  have made: "data (makedirs fs) = Dir None"
    using absent by (auto simp: makedirs_def)
  have again: "makedirs (makedirs fs) = makedirs fs"
    using made by (simp add: makedirs_def)
  have "load_results fs = (Inr [], makedirs fs)"
    using assms by (simp add: load_results_def)
  moreover have "device_full (makedirs fs) = device_full fs"
    by (simp add: makedirs_def split: dir_node.split)
  moreover have "filesystem.more (makedirs fs) = filesystem.more fs"
    by (simp add: makedirs_def split: dir_node.split)
  moreover have "data fs = Dir None \<longrightarrow> makedirs fs = fs"
    by (simp add: makedirs_def)
  moreover have "load_results (makedirs fs) = (Inr [], makedirs fs)"
    using made again by (simp add: load_results_def path_exists_def)
  ultimately show ?thesis using made by blast
qed

theorem load_results_creates_directory_witness:
  "\<not> path_exists fresh_fs \<and>
   load_results fresh_fs = (Inr [], \<lparr>data = Dir None, device_full = False\<rparr>) \<and>
   \<lparr>data = Dir None, device_full = False\<rparr> \<noteq> fresh_fs"
proof -
  have h: "\<not> path_exists fresh_fs"
    by (simp add: path_exists_def fresh_fs_def)
  obtain fs' where l: "load_results fresh_fs = (Inr [], fs')" and d: "data fs' = Dir None"
    and f: "device_full fs' = device_full fresh_fs"
    using load_results_creates_directory [OF h] by blast
  have "fs' = \<lparr>data = Dir None, device_full = False\<rparr>"
    using d f by (cases fs') (simp add: fresh_fs_def)
  with h l show ?thesis by (simp add: fresh_fs_def)
qed

text \<open>What \<^verbatim>\<open>save_results\<close> does, case by case, once the directory exists.\<close>

lemma load_results_dir:
  "load_results fs = (r, fs1) \<Longrightarrow> data fs1 \<noteq> NoEntry"
  by (auto simp: load_results_def path_exists_def makedirs_def
      split: if_splits dir_node.splits option.splits)

lemma save_results_outcome:
  assumes "data fs \<noteq> NoEntry"
  shows "save_results stored fs =
     (case data fs of
        Dir (Some old) \<Rightarrow>
          if \<not> writable old then (Inl PermissionError, fs)
          else if device_full fs then
            (Inl NoSpaceError,
             fs\<lparr>data := Dir (Some (RegularFile (readable old) True (Partial stored)))\<rparr>)
          else (Inr (), fs\<lparr>data := Dir (Some (RegularFile (readable old) True (Json stored)))\<rparr>)
      | _ \<Rightarrow>
          if device_full fs then
            (Inl NoSpaceError, fs\<lparr>data := Dir (Some (RegularFile True True (Partial stored)))\<rparr>)
          else (Inr (), fs\<lparr>data := Dir (Some (RegularFile True True (Json stored)))\<rparr>))"
  using assms
  by (simp add: save_results_def makedirs_def open_write_def json_dump_def Let_def
      split: dir_node.split option.split)

text \<open>
  Claim C5, amended. Appending a record rewrites the entire collection, and every
  failure of the write reaches the caller. The rewrite is not atomic: the file is
  truncated when it is opened, so a write that fails mid-way leaves a proper prefix of
  the new serialization in place of the prior content; only a file that cannot be
  opened for writing leaves the state as it was.
\<close>

theorem record_quiz_result_write_failure:
  assumes "completion_seconds start_time end_time = Inr seconds"
    and "load_results fs = (Inr results, fs1)"
  shows "record_quiz_result now fs q u n sc ca tq start_time end_time =
     (let stored = results @
            [\<lparr>quiz_id = Some (str_of_id q), user_id = Some (str_int u), user_name = Some n,
              score = Some sc, correct_answers = Some ca, total_questions = Some tq,
              completion_time = Some seconds, timestamp = Some now\<rparr>]
      in case data fs1 of
           Dir (Some old) \<Rightarrow>
             if \<not> writable old then (Inl PermissionError, fs1)
             else if device_full fs1 then
               (Inl NoSpaceError,
                fs1\<lparr>data := Dir (Some (RegularFile (readable old) True (Partial stored)))\<rparr>)
             else
               (Inr (), fs1\<lparr>data := Dir (Some (RegularFile (readable old) True (Json stored)))\<rparr>)
         | _ \<Rightarrow>
             if device_full fs1 then
               (Inl NoSpaceError, fs1\<lparr>data := Dir (Some (RegularFile True True (Partial stored)))\<rparr>)
             else (Inr (), fs1\<lparr>data := Dir (Some (RegularFile True True (Json stored)))\<rparr>))"
proof -
  have "data fs1 \<noteq> NoEntry"
    using assms(2) by (rule load_results_dir)
  then show ?thesis
    using assms by (simp add: record_quiz_result_def save_results_outcome Let_def)
qed

lemma load_full: "load_results full_fs = (Inr example_results, full_fs)"
  by (simp add: load_results_def path_exists_def open_read_def full_fs_def
      json_load_def except_decode_or_missing_def)

lemma seconds_30:
  "completion_seconds (Some (Naive 0)) (Some (Naive 30000000)) = Inr (PyFloat 30)"
  by (simp add: completion_seconds_def total_seconds_def)

theorem record_quiz_result_write_failure_witness:
  "completion_seconds (Some (Naive 0)) (Some (Naive 30000000)) = Inr (PyFloat 30) \<and>
   load_results full_fs = (Inr example_results, full_fs) \<and>
   record_quiz_result ''t'' full_fs (StrId ''Q1'') 42 ''Z'' (PyInt 3) 3 10
       (Some (Naive 0)) (Some (Naive 30000000)) =
     (Inl NoSpaceError,
      full_fs\<lparr>data := Dir (Some (RegularFile True True (Partial (example_results @
         [\<lparr>quiz_id = Some ''Q1'', user_id = Some (str_int 42), user_name = Some ''Z'',
           score = Some (PyInt 3), correct_answers = Some 3, total_questions = Some 10,
           completion_time = Some (PyFloat 30), timestamp = Some ''t''\<rparr>]))))\<rparr>)"
  using seconds_30 load_full
    record_quiz_result_write_failure [OF seconds_30 load_full, of "''t''" "StrId ''Q1''" 42 "''Z''" "PyInt 3" 3 10]
  by (simp add: full_fs_def)

text \<open>
  Claim C5, as stated, fails on a full device: the submission raises, the file no
  longer holds the five results it held, and the next load returns the empty list.
\<close>

lemma record_on_full_device:
  "record_quiz_result ''t'' full_fs (StrId ''Q1'') 42 ''Z'' (PyInt 3) 3 10
       (Some (Naive 0)) (Some (Naive 30000000)) =
     (Inl NoSpaceError,
      \<lparr>data = Dir (Some (RegularFile True True (Partial (example_results @
         [\<lparr>quiz_id = Some ''Q1'', user_id = Some (str_int 42), user_name = Some ''Z'',
           score = Some (PyInt 3), correct_answers = Some 3, total_questions = Some 10,
           completion_time = Some (PyFloat 30), timestamp = Some ''t''\<rparr>])))),
       device_full = True\<rparr>)"
  by (simp add: record_quiz_result_def load_full seconds_30 Let_def)
     (simp add: full_fs_def save_results_outcome)

theorem record_quiz_result_not_atomic:
  "fst (load_results full_fs) = Inr example_results \<and>
   fst (record_quiz_result ''t'' full_fs (StrId ''Q1'') 42 ''Z'' (PyInt 3) 3 10
          (Some (Naive 0)) (Some (Naive 30000000))) = Inl NoSpaceError \<and>
   snd (record_quiz_result ''t'' full_fs (StrId ''Q1'') 42 ''Z'' (PyInt 3) 3 10
          (Some (Naive 0)) (Some (Naive 30000000))) \<noteq> full_fs \<and>
   fst (load_results (snd (record_quiz_result ''t'' full_fs (StrId ''Q1'') 42 ''Z'' (PyInt 3) 3 10
          (Some (Naive 0)) (Some (Naive 30000000))))) = Inr []"
  by (simp add: record_on_full_device load_full)
     (simp add: full_fs_def load_results_def path_exists_def open_read_def
        json_load_def except_decode_or_missing_def)

text \<open>
  Claim C6, amended. The record a successful submission stores has, as its completion
  time, the difference of the two timestamps in seconds when both are datetimes, and 0
  when one of them is not; the difference is not negative exactly when the end is not
  before the start.
\<close>

theorem record_quiz_result_completion_time:
  assumes "record_quiz_result now fs q u n sc ca tq start_time end_time = (Inr (), fs2)"
  shows "\<exists>f results r. data fs2 = Dir (Some f) \<and> content f = Json (results @ [r]) \<and>
           fst (load_results fs) = Inr results \<and>
           (case (start_time, end_time) of
              (Some s, Some e) \<Rightarrow>
                completion_time r = Some (PyFloat (of_int (micros e - micros s) / 1000000)) \<and>
                (0 \<le> num_val (PyFloat (of_int (micros e - micros s) / 1000000))) = (micros s \<le> micros e)
            | _ \<Rightarrow> completion_time r = Some (PyInt 0))"
proof -
  obtain seconds where cs: "completion_seconds start_time end_time = Inr seconds"
    using assms by (cases "completion_seconds start_time end_time")
      (auto simp: record_quiz_result_def Let_def)
  obtain results fs1 where ld: "load_results fs = (Inr results, fs1)"
    using assms cs by (cases "load_results fs"; cases "fst (load_results fs)")
      (auto simp: record_quiz_result_def Let_def)
  define r where "r = \<lparr>quiz_id = Some (str_of_id q), user_id = Some (str_int u), user_name = Some n,
              score = Some sc, correct_answers = Some ca, total_questions = Some tq,
              completion_time = Some seconds, timestamp = Some now\<rparr>"
  have dir: "data fs1 \<noteq> NoEntry"
    using ld by (rule load_results_dir)
  have "save_results (results @ [r]) fs1 = (Inr (), fs2)"
    using assms cs ld by (simp add: record_quiz_result_def Let_def r_def)
  then have "\<exists>f. data fs2 = Dir (Some f) \<and> content f = Json (results @ [r])"
    using save_results_outcome [OF dir, of "results @ [r]"]
    by (auto split: dir_node.splits option.splits if_splits)
  moreover have "fst (load_results fs) = Inr results"
    using ld by simp
  moreover have "case (start_time, end_time) of
              (Some s, Some e) \<Rightarrow>
                completion_time r = Some (PyFloat (of_int (micros e - micros s) / 1000000)) \<and>
                (0 \<le> num_val (PyFloat (of_int (micros e - micros s) / 1000000))) = (micros s \<le> micros e)
            | _ \<Rightarrow> completion_time r = Some (PyInt 0)"
  proof (cases start_time)
    case None
    with cs show ?thesis by (simp add: completion_seconds_def r_def)
  next
    case s: (Some s)
    show ?thesis
    proof (cases end_time)
      case None
      with cs s show ?thesis by (simp add: completion_seconds_def r_def)
    next
      case e: (Some e)
      have "seconds = PyFloat (of_int (micros e - micros s) / 1000000)"
        using cs s e by (cases e; cases s) (auto simp: completion_seconds_def total_seconds_def)
      then show ?thesis
        using s e by (simp add: r_def zero_le_divide_iff)
    qed
  qed
  ultimately show ?thesis by blast
qed

text \<open>
  Claim C6, as stated, fails when the end precedes the start: the stored completion
  time is negative.
\<close>

lemma load_fresh: "load_results fresh_fs = (Inr [], \<lparr>data = Dir None, device_full = False\<rparr>)"
  by (simp add: load_results_def path_exists_def makedirs_def fresh_fs_def)

lemma record_on_fresh:
  "completion_seconds start_time end_time = Inr seconds \<Longrightarrow>
   record_quiz_result ''t'' fresh_fs (StrId ''Q1'') 42 ''Z'' (PyInt 3) 3 10 start_time end_time =
     (Inr (),
      \<lparr>data = Dir (Some (RegularFile True True (Json
         [\<lparr>quiz_id = Some ''Q1'', user_id = Some (str_int 42), user_name = Some ''Z'',
           score = Some (PyInt 3), correct_answers = Some 3, total_questions = Some 10,
           completion_time = Some seconds, timestamp = Some ''t''\<rparr>]))),
       device_full = False\<rparr>)"
  by (simp add: record_quiz_result_def load_fresh Let_def save_results_outcome)

lemma seconds_late_start:
  "completion_seconds (Some (Naive 60000000)) (Some (Naive 0)) = Inr (PyFloat (- 60))"
  by (simp add: completion_seconds_def total_seconds_def)

theorem record_quiz_result_negative_time:
  "record_quiz_result ''t'' fresh_fs (StrId ''Q1'') 42 ''Z'' (PyInt 3) 3 10
       (Some (Naive 60000000)) (Some (Naive 0)) =
     (Inr (),
      \<lparr>data = Dir (Some (RegularFile True True (Json
         [\<lparr>quiz_id = Some ''Q1'', user_id = Some (str_int 42), user_name = Some ''Z'',
           score = Some (PyInt 3), correct_answers = Some 3, total_questions = Some 10,
           completion_time = Some (PyFloat (- 60)), timestamp = Some ''t''\<rparr>]))),
       device_full = False\<rparr>) \<and>
   num_val (PyFloat (- 60)) < 0"
  by (simp add: record_on_fresh [OF seconds_late_start])

theorem record_quiz_result_completion_time_witness:
  "record_quiz_result ''t'' fresh_fs (StrId ''Q1'') 42 ''Z'' (PyInt 3) 3 10
       (Some (Naive 0)) (Some (Naive 30000000)) =
     (Inr (),
      \<lparr>data = Dir (Some (RegularFile True True (Json
         [\<lparr>quiz_id = Some ''Q1'', user_id = Some (str_int 42), user_name = Some ''Z'',
           score = Some (PyInt 3), correct_answers = Some 3, total_questions = Some 10,
           completion_time = Some (PyFloat 30), timestamp = Some ''t''\<rparr>]))),
       device_full = False\<rparr>) \<and>
   (\<exists>f results r.
      data \<lparr>data = Dir (Some (RegularFile True True (Json
         [\<lparr>quiz_id = Some ''Q1'', user_id = Some (str_int 42), user_name = Some ''Z'',
           score = Some (PyInt 3), correct_answers = Some 3, total_questions = Some 10,
           completion_time = Some (PyFloat 30), timestamp = Some ''t''\<rparr>]))),
       device_full = False\<rparr> = Dir (Some f) \<and>
      content f = Json (results @ [r]) \<and> fst (load_results fresh_fs) = Inr results \<and>
      completion_time r = Some (PyFloat 30) \<and> 0 \<le> num_val (PyFloat 30))"
proof -
  have h: "record_quiz_result ''t'' fresh_fs (StrId ''Q1'') 42 ''Z'' (PyInt 3) 3 10
       (Some (Naive 0)) (Some (Naive 30000000)) =
     (Inr (),
      \<lparr>data = Dir (Some (RegularFile True True (Json
         [\<lparr>quiz_id = Some ''Q1'', user_id = Some (str_int 42), user_name = Some ''Z'',
           score = Some (PyInt 3), correct_answers = Some 3, total_questions = Some 10,
           completion_time = Some (PyFloat 30), timestamp = Some ''t''\<rparr>]))),
       device_full = False\<rparr>)"
    by (rule record_on_fresh [OF seconds_30])
  show ?thesis
    using h record_quiz_result_completion_time [OF h] by simp
qed

subsection \<open>The reporter\<close>






text \<open>Rounding to a double leaves a whole number below \<open>2 ^ 53\<close> as it is.\<close>

lemma ilog2_unique: "2 ^ k \<le> n \<Longrightarrow> n < 2 ^ Suc k \<Longrightarrow> ilog2 n = k"
proof (induction k arbitrary: n)
  case 0
  then show ?case by (subst ilog2.simps) simp
next
  case (Suc k)
  have "2 ^ k \<le> n div 2" "n div 2 < 2 ^ Suc k"
    using Suc.prems by auto
  then have "ilog2 (n div 2) = k" by (rule Suc.IH)
  moreover have "\<not> n < 2"
  proof -
    have "(2::nat) \<le> 2 ^ Suc k" by simp
    with Suc.prems(1) show ?thesis by linarith
  qed
  ultimately show ?case by (subst ilog2.simps) simp
qed

lemma ilog2_bound: "n < 2 ^ Suc k \<Longrightarrow> ilog2 n \<le> k"
proof (induction k arbitrary: n)
  case 0
  then show ?case by (subst ilog2.simps) simp
next
  case (Suc k)
  have "n div 2 < 2 ^ Suc k"
    using Suc.prems by auto
  then have "ilog2 (n div 2) \<le> k" by (rule Suc.IH)
  then show ?case by (subst ilog2.simps) simp
qed

lemma round_half_even_near:
  "of_int k - 1 / 2 < x \<Longrightarrow> x < of_int k + 1 / 2 \<Longrightarrow> round_half_even x = k"
proof -
  assume lo: "of_int k - 1 / 2 < x" and hi: "x < of_int k + 1 / 2"
  have "\<lfloor>x\<rfloor> = k \<or> \<lfloor>x\<rfloor> = k - 1"
    using lo hi by (simp add: floor_eq_iff) linarith
  then show ?thesis
  proof
    assume f: "\<lfloor>x\<rfloor> = k"
    then have "x - of_int k < 1 / 2" using hi by simp
    with f show ?thesis by (simp add: round_half_even_def Let_def)
  next
    assume f: "\<lfloor>x\<rfloor> = k - 1"
    then have "1 / 2 < x - of_int (k - 1)" using lo by simp
    with f show ?thesis by (simp add: round_half_even_def Let_def)
  qed
qed

lemma round_half_even_of_int: "round_half_even (of_int k) = k"
  by (rule round_half_even_near) simp_all

lemma pow2_neg: "pow2 (- int j) = 1 / 2 ^ j"
  by (cases "j = 0") (simp_all add: pow2_def)

lemma round_double_int:
  assumes "0 \<le> n" and "n < 2 ^ 53"
  shows "round_double (of_int n) = of_int n"
proof (cases "n = 0")
  case True
  then show ?thesis by (simp add: round_double_def)
next
  case False
  with assms have pos: "1 \<le> n" by simp
  define e where "e = ilog2 (nat n)"
  have "nat n < 2 ^ Suc 52"
    using assms by (simp add: nat_less_iff)
  then have e52: "e \<le> 52"
    unfolding e_def by (rule ilog2_bound)
  define j where "j = 52 - e"
  have ex: "exponent \<bar>of_int n\<bar> - 52 = - int j"
    using pos e52 by (simp add: exponent_def e_def j_def)
  have scaled: "(of_int n :: rat) / (1 / 2 ^ j) = of_int (n * 2 ^ j)"
    by simp
  have "round_double (of_int n) = of_int (round_half_even (of_int n / (1 / 2 ^ j))) * (1 / 2 ^ j)"
    using False by (simp only: round_double_def Let_def ex pow2_neg) simp
  also have "\<dots> = of_int (n * 2 ^ j) * (1 / 2 ^ j)"
    by (simp only: scaled round_half_even_of_int)
  also have "\<dots> = of_int n"
    by simp
  finally show ?thesis .
qed

text \<open>
  Below \<open>2 ^ 53\<close> the float operators of \<^verbatim>\<open>format_time\<close> are exact: the difference
  \<^verbatim>\<open>vx - mod\<close> and its quotient by 60 are whole numbers that a double holds.
\<close>

lemma floor_times_60: "(of_int (60 * \<lfloor>q / 60\<rfloor>) :: rat) \<le> q"
proof -
  have "of_int \<lfloor>q / 60\<rfloor> \<le> q / 60" by (rule of_int_floor_le)
  then have "of_int \<lfloor>q / 60\<rfloor> * 60 \<le> q / 60 * 60"
    by (rule mult_right_mono) simp
  then show ?thesis by simp
qed

lemma fmod_nonneg: "0 \<le> q \<Longrightarrow> fmod q 60 = q - 60 * of_int \<lfloor>q / 60\<rfloor>"
  by (simp add: fmod_def truncate_def)

lemma py_mod_exact:
  assumes "0 \<le> q"
  shows "py_mod (PyFloat q) 60 = PyFloat (q - 60 * of_int \<lfloor>q / 60\<rfloor>)"
proof -
  have "0 \<le> q - 60 * of_int \<lfloor>q / 60\<rfloor>"
    using floor_times_60 [of q] by simp
  then show ?thesis
    using assms by (simp add: fmod_nonneg Let_def)
qed

lemma py_floordiv_exact:
  assumes "0 \<le> q" and "q < 2 ^ 53"
  shows "py_floordiv (PyFloat q) 60 = PyFloat (of_int \<lfloor>q / 60\<rfloor>)"
proof -
  define k where "k = \<lfloor>q / 60\<rfloor>"
  have k0: "0 \<le> k" using assms(1) by (simp add: k_def)
  have le: "(of_int (60 * k) :: rat) \<le> q"
    unfolding k_def by (rule floor_times_60)
  then have "(of_int (60 * k) :: rat) < 2 ^ 53" using assms(2) by linarith
  then have "(of_int (60 * k) :: rat) < of_int (2 ^ 53)" by simp
  then have b60: "60 * k < 2 ^ 53" by (simp only: of_int_less_iff)
  then have bk: "k < 2 ^ 53" using k0 by linarith
  have r0: "0 \<le> q - 60 * of_int k" using le by simp
  have sub: "q - fmod q 60 = of_int (60 * k)"
    using assms(1) by (simp add: fmod_nonneg k_def)
  have r1: "round_double (q - fmod q 60) = of_int (60 * k)"
    unfolding sub using k0 b60 by (intro round_double_int) simp_all
  have "(of_int (60 * k) :: rat) / 60 = of_int k" by simp
  then have r2: "round_double (round_double (q - fmod q 60) / 60) = of_int k"
    unfolding r1 using k0 bk by (simp add: round_double_int)
  have sign: "\<not> (fmod q 60 < 0)"
    using r0 assms(1) by (simp add: fmod_nonneg k_def)
  have snap: "round_double (of_int k - of_int \<lfloor>of_int k :: rat\<rfloor>) = 0"
    by (simp add: round_double_def)
  show ?thesis
    using r2 sign snap by (simp add: Let_def k_def)
qed

text \<open>
  Claim C8, as stated, fails on large floats. At \<open>10 ^ 22\<close> seconds (a double) the
  quotient \<^verbatim>\<open>seconds // 60\<close> is rounded to the nearest double, and the minutes
  rendered are not the whole minutes of the value.
\<close>

lemma round_double_near:
  assumes "x \<noteq> 0" and "exponent \<bar>x\<bar> = e"
    and "of_int k - 1 / 2 < x / pow2 (e - 52)" and "x / pow2 (e - 52) < of_int k + 1 / 2"
  shows "round_double x = of_int k * pow2 (e - 52)"
  using assms by (simp add: round_double_def Let_def round_half_even_near)

lemma floor_large_quotient: "\<lfloor>10000000000000000000000 / 60 :: rat\<rfloor> = 166666666666666666666"
  by (simp add: floor_eq_iff)

lemma exponent_large_difference: "exponent \<bar>10000000000000000000000 - 40\<bar> = 73"
proof -
  have "ilog2 9999999999999999999960 = 73"
    by (rule ilog2_unique) simp_all
  then show ?thesis by (simp add: exponent_def)
qed

lemma exponent_large_quotient: "exponent \<bar>10000000000000000000000 / 60\<bar> = 67"
proof -
  have "ilog2 166666666666666666666 = 67"
    by (rule ilog2_unique) simp_all
  moreover have "\<lfloor>500000000000000000000 / 3 :: rat\<rfloor> = 166666666666666666666"
    by (simp add: floor_eq_iff)
  ultimately show ?thesis by (simp add: exponent_def)
qed

lemma round_large_difference:
  "round_double (10000000000000000000000 - 40) = 10000000000000000000000"
proof -
  have "round_double (10000000000000000000000 - 40) = of_int 4768371582031250 * pow2 (73 - 52)"
    by (rule round_double_near [OF _ exponent_large_difference]) (simp_all add: pow2_def)
  then show ?thesis by (simp add: pow2_def)
qed

lemma round_large_quotient:
  "round_double (10000000000000000000000 / 60) = 166666666666666655744"
proof -
  have "round_double (10000000000000000000000 / 60) = of_int 5086263020833333 * pow2 (67 - 52)"
    by (rule round_double_near [OF _ exponent_large_quotient]) (simp_all add: pow2_def)
  then show ?thesis by (simp add: pow2_def)
qed

lemma fmod_large: "fmod 10000000000000000000000 60 = 40"
  using floor_large_quotient by (simp add: fmod_def truncate_def)

lemma floordiv_large:
  "py_floordiv (PyFloat 10000000000000000000000) 60 = PyFloat 166666666666666655744"
proof -
  have snap: "round_double (166666666666666655744 - 166666666666666655744) = 0"
    by (simp add: round_double_def)
  have sign: "\<not> ((40 :: rat) \<noteq> 0 \<and> (((60 :: rat) < 0) \<noteq> ((40 :: rat) < 0)))"
    by simp
  have half: "\<not> (1 / 2 < (0 :: rat))"
    by simp
  have whole: "(of_int \<lfloor>166666666666666655744 :: rat\<rfloor> :: rat) = 166666666666666655744"
    by simp
  show ?thesis
    by (simp only: py_floordiv.simps Let_def of_int_numeral fmod_large round_large_difference
        round_large_quotient sign if_False snap half whole)
qed

lemma mod_large: "py_mod (PyFloat 10000000000000000000000) 60 = PyFloat 40"
  by (simp add: Let_def fmod_large)

lemma str_nat_step: "10 \<le> n \<Longrightarrow> str_nat n = str_nat (n div 10) @ [digit_char (n mod 10)]"
  by (subst str_nat.simps) simp

lemma str_nat_small: "n < 10 \<Longrightarrow> str_nat n = [digit_char n]"
  by (subst str_nat.simps) simp

lemma str_nat_rendered: "str_nat 166666666666666655744 = ''166666666666666655744''"
  by (simp add: str_nat_step str_nat_small digit_char_def)

lemma str_nat_truncated: "str_nat 166666666666666666666 = ''166666666666666666666''"
  by (simp add: str_nat_step str_nat_small digit_char_def)

lemma str_nat_40: "str_nat 40 = ''40''"
  by (simp add: str_nat_step str_nat_small digit_char_def)

theorem format_time_large_float:
  "format_time (PyFloat 10000000000000000000000) = ''166666666666666655744m 40s'' \<and>
   str_int \<lfloor>10000000000000000000000 / 60 :: rat\<rfloor> = ''166666666666666666666''"
proof -
  have "format_time (PyFloat 10000000000000000000000) = ''166666666666666655744m 40s''"
    unfolding format_time_def Let_def floordiv_large mod_large
    by (simp add: truncate_def str_int_def str_nat_rendered str_nat_40)
  moreover have "str_int \<lfloor>10000000000000000000000 / 60 :: rat\<rfloor> = ''166666666666666666666''"
    unfolding floor_large_quotient by (simp add: str_int_def str_nat_truncated)
  ultimately show ?thesis by simp
qed

text \<open>Values used by the examples.\<close>

lemma str_nat_59: "str_nat 59 = ''59''"
  by (simp add: str_nat_step str_nat_small digit_char_def)

lemma floor_minutes_example: "\<lfloor>35999 / 600 :: rat\<rfloor> = 59"
  by (simp add: floor_eq_iff)

lemma floor_seconds_example: "\<lfloor>599 / 10 :: rat\<rfloor> = 59"
  by (simp add: floor_eq_iff)

lemma double_minutes: "\<lfloor>(7916263817661645 / 2199023255552) / 60 :: rat\<rfloor> = 59"
  by (simp add: floor_eq_iff)

lemma double_seconds: "\<lfloor>7916263817661645 / 2199023255552 - 60 * 59 :: rat\<rfloor> = 59"
  by (simp add: floor_eq_iff)

lemma format_time_exact:
  assumes "0 \<le> q" and "q < 2 ^ 53"
  shows "format_time (PyFloat q) =
     str_int \<lfloor>q / 60\<rfloor> @ ''m '' @ str_int \<lfloor>q - 60 * of_int \<lfloor>q / 60\<rfloor>\<rfloor> @ ''s''"
proof -
  have "0 \<le> q - 60 * of_int \<lfloor>q / 60\<rfloor>"
    using floor_times_60 [of q] by simp
  moreover have "0 \<le> \<lfloor>q / 60\<rfloor>"
    using assms(1) by simp
  ultimately show ?thesis
    unfolding format_time_def Let_def py_floordiv_exact [OF assms] py_mod_exact [OF assms(1)]
    by (simp add: truncate_def)
qed

lemma format_time_decimal: "format_time (PyFloat (35999 / 10)) = ''59m 59s''"
proof -
  have "format_time (PyFloat (35999 / 10)) =
     str_int \<lfloor>(35999 / 10) / 60 :: rat\<rfloor> @ ''m '' @
     str_int \<lfloor>35999 / 10 - 60 * of_int \<lfloor>(35999 / 10) / 60 :: rat\<rfloor> :: rat\<rfloor> @ ''s''"
    by (rule format_time_exact) simp_all
  then show ?thesis
    by (simp add: floor_minutes_example floor_seconds_example str_int_def str_nat_59)
qed

lemma format_time_double:
  "format_time (PyFloat (7916263817661645 / 2199023255552)) = ''59m 59s''"
proof -
  have "format_time (PyFloat (7916263817661645 / 2199023255552)) =
     str_int \<lfloor>(7916263817661645 / 2199023255552) / 60 :: rat\<rfloor> @ ''m '' @
     str_int \<lfloor>7916263817661645 / 2199023255552 -
        60 * of_int \<lfloor>(7916263817661645 / 2199023255552) / 60 :: rat\<rfloor> :: rat\<rfloor> @ ''s''"
    by (rule format_time_exact) simp_all
  then show ?thesis
    unfolding double_minutes using double_seconds by (simp add: str_int_def str_nat_59)
qed

text \<open>
  Claim C8, amended. For a number of seconds that is not negative, and below \<open>2 ^ 53\<close>
  when it is a float, \<^verbatim>\<open>format_time\<close> renders \<open>m\<close> minutes and \<open>r\<close> seconds with
  \<open>0 \<le> r < 60\<close> and \<open>60 m + r\<close> the whole part of the number: both components are
  truncated, not rounded. 0 renders \<^verbatim>\<open>0m 0s\<close>, 65 renders \<^verbatim>\<open>1m 5s\<close> and 3599.9
  renders \<^verbatim>\<open>59m 59s\<close>, as the decimal and as the double nearest to it.
\<close>

theorem format_time_truncates:
  "(0 \<le> num_val s \<and> (case s of PyInt i \<Rightarrow> True | PyFloat q \<Rightarrow> q < 2 ^ 53) \<longrightarrow>
      (\<exists>m r. format_time s = str_int m @ ''m '' @ str_int r @ ''s'' \<and>
         0 \<le> m \<and> 0 \<le> r \<and> r < 60 \<and>
         of_int (60 * m + r) \<le> num_val s \<and> num_val s < of_int (60 * m + r) + 1)) \<and>
   format_time (PyInt 0) = ''0m 0s'' \<and>
   format_time (PyInt 65) = ''1m 5s'' \<and>
   format_time (PyFloat (35999 / 10)) = ''59m 59s'' \<and>
   format_time (PyFloat (7916263817661645 / 2199023255552)) = ''59m 59s''"
proof -
  have general: "\<exists>m r. format_time s = str_int m @ ''m '' @ str_int r @ ''s'' \<and>
         0 \<le> m \<and> 0 \<le> r \<and> r < 60 \<and>
         of_int (60 * m + r) \<le> num_val s \<and> num_val s < of_int (60 * m + r) + 1"
    if nonneg: "0 \<le> num_val s"
      and small: "case s of PyInt i \<Rightarrow> True | PyFloat q \<Rightarrow> q < 2 ^ 53"
  proof (cases s)
    case (PyInt i)
    with nonneg have i: "0 \<le> i" by simp
    have "format_time s = str_int (i div 60) @ ''m '' @ str_int (i mod 60) @ ''s''"
      by (simp add: PyInt format_time_def)
    moreover have "0 \<le> i div 60" using i by simp
    moreover have "0 \<le> i mod 60" "i mod 60 < 60" by simp_all
    moreover have "60 * (i div 60) + i mod 60 = i" by simp
    ultimately show ?thesis
      using PyInt by (intro exI [of _ "i div 60"] exI [of _ "i mod 60"]) simp
  next
    case (PyFloat q)
    with nonneg have q: "0 \<le> q" by simp
    from PyFloat small have q53: "q < 2 ^ 53" by simp
    define m where "m = \<lfloor>q / 60\<rfloor>"
    define rest where "rest = q - 60 * of_int m"
    have m0: "0 \<le> m" using q by (simp add: m_def)
    have "of_int m \<le> q / 60" "q / 60 < of_int m + 1"
      unfolding m_def by linarith+
    then have rest: "0 \<le> rest" "rest < 60"
      unfolding rest_def by (simp_all add: field_simps)
    have r0: "0 \<le> \<lfloor>rest\<rfloor>" and r60: "\<lfloor>rest\<rfloor> < 60"
      using rest by (simp_all add: floor_less_iff)
    have "format_time s = str_int m @ ''m '' @ str_int \<lfloor>rest\<rfloor> @ ''s''"
      unfolding PyFloat m_def rest_def by (rule format_time_exact [OF q q53])
    moreover have "of_int (60 * m + \<lfloor>rest\<rfloor>) \<le> q"
    proof -
      have "of_int \<lfloor>rest\<rfloor> \<le> rest" by simp
      moreover have "q = rest + 60 * of_int m" by (simp add: rest_def)
      moreover have "(of_int (60 * m + \<lfloor>rest\<rfloor>) :: rat) = 60 * of_int m + of_int \<lfloor>rest\<rfloor>"
        by simp
      ultimately show ?thesis by linarith
    qed
    moreover have "q < of_int (60 * m + \<lfloor>rest\<rfloor>) + 1"
    proof -
      have "rest < of_int \<lfloor>rest\<rfloor> + 1" by linarith
      moreover have "q = rest + 60 * of_int m" by (simp add: rest_def)
      moreover have "(of_int (60 * m + \<lfloor>rest\<rfloor>) :: rat) = 60 * of_int m + of_int \<lfloor>rest\<rfloor>"
        by simp
      ultimately show ?thesis by linarith
    qed
    ultimately show ?thesis
      using PyFloat m0 r0 r60 by (intro exI [of _ m] exI [of _ "\<lfloor>rest\<rfloor>"]) simp
  qed
  have e0: "format_time (PyInt 0) = ''0m 0s''"
    by (simp add: format_time_def str_int_def str_nat_small digit_char_def)
  have e65: "format_time (PyInt 65) = ''1m 5s''"
    by (simp add: format_time_def str_int_def str_nat_small digit_char_def)
  from general e0 e65 format_time_decimal format_time_double show ?thesis by blast
qed

theorem format_time_truncates_witness:
  "0 \<le> num_val (PyFloat (35999 / 10)) \<and>
   (case PyFloat (35999 / 10) of PyInt i \<Rightarrow> True | PyFloat q \<Rightarrow> q < 2 ^ 53) \<and>
   (\<exists>m r. format_time (PyFloat (35999 / 10)) = str_int m @ ''m '' @ str_int r @ ''s'' \<and>
      0 \<le> m \<and> 0 \<le> r \<and> r < 60 \<and>
      of_int (60 * m + r) \<le> num_val (PyFloat (35999 / 10)) \<and>
      num_val (PyFloat (35999 / 10)) < of_int (60 * m + r) + 1)"
proof -
  have h: "0 \<le> num_val (PyFloat (35999 / 10))" by simp
  have b: "case PyFloat (35999 / 10) of PyInt i \<Rightarrow> True | PyFloat q \<Rightarrow> q < 2 ^ 53" by simp
  show ?thesis
    using h b format_time_truncates [of "PyFloat (35999 / 10)"] by blast
qed








text \<open>The loop appends one text per entry, numbered from its start index.\<close>

lemma add_ranking_concat:
  "add_ranking message i entries tq =
     message @ concat (map (\<lambda>(j, entry). entry_text j entry tq) (zip [i..<i + length entries] entries))"
proof (induction entries arbitrary: message i)
  case Nil
  then show ?case by simp
next
  case (Cons entry rest)
  have "[i..<i + length (entry # rest)] = i # [Suc i..<Suc i + length rest]"
    by (simp add: upt_rec)
  then show ?case
    by (simp add: Cons.IH)
qed

text \<open>
  Claim C7. For a view that is not empty, the message is the header, one text per
  entry and the footer, and the denominator of the correct answers in the text of
  every entry is \<^verbatim>\<open>total_questions\<close> of the first entry of the view (0 when that
  entry has none), not the entry's own.
\<close>

theorem generate_leaderboard_message_denominator:
  assumes "get_leaderboard fs q 15 = (Inr view, fs')" and "view \<noteq> []"
  shows "\<exists>title.
     generate_leaderboard_message fs q quiz_title =
       (Inr (chart_icon @ '' *Leaderboard: '' @ title @ ''* '' @ chart_icon @ newline @ newline @
             concat (map (\<lambda>(i, entry).
                 medal i @ ''*'' @ str_nat i @ ''. '' @ get_or (user_name entry) ''Unknown'' @ ''*'' @
                 newline @ ''   Score: '' @ format_score (get_or (score entry) (PyInt 0)) @ ''  ('' @
                 str_int (get_or (correct_answers entry) 0) @ ''/'' @
                 str_int (get_or (total_questions (hd view)) 0) @ '' correct)'' @ newline @
                 ''   Time: '' @ format_time (get_or (completion_time entry) (PyInt 0)) @
                 newline @ newline)
               (zip [1..<Suc (length view)] view)) @
             ''Use /play to start a new quiz!''), fs')"
proof -
  obtain first others where v: "view = first # others"
    using assms(2) by (cases view) auto
  have body: "(\<lambda>(i, entry). entry_text i entry (get_or (total_questions first) 0)) =
      (\<lambda>(i, entry).
                 medal i @ ''*'' @ str_nat i @ ''. '' @ get_or (user_name entry) ''Unknown'' @ ''*'' @
                 newline @ ''   Score: '' @ format_score (get_or (score entry) (PyInt 0)) @ ''  ('' @
                 str_int (get_or (correct_answers entry) 0) @ ''/'' @
                 str_int (get_or (total_questions first) 0) @ '' correct)'' @ newline @
                 ''   Time: '' @ format_time (get_or (completion_time entry) (PyInt 0)) @
                 newline @ newline)"
    by (simp add: entry_text_def Let_def fun_eq_iff)
  show ?thesis
    using assms(1) unfolding v
    by (simp add: generate_leaderboard_message_def Let_def add_ranking_concat body
        del: upt_Suc append_assoc)
qed

theorem generate_leaderboard_message_denominator_witness:
  "get_leaderboard example_fs None 15 =
     (Inr [example_results ! 3, example_results ! 4, example_results ! 1,
           example_results ! 2, example_results ! 0], example_fs) \<and>
   [example_results ! 3, example_results ! 4, example_results ! 1,
    example_results ! 2, example_results ! 0] \<noteq> [] \<and>
   total_questions (example_results ! 3) = Some 10 \<and>
   total_questions (example_results ! 2) = Some 12 \<and>
   (\<exists>title.
     generate_leaderboard_message example_fs None None =
       (Inr (chart_icon @ '' *Leaderboard: '' @ title @ ''* '' @ chart_icon @ newline @ newline @
             concat (map (\<lambda>(i, entry).
                 medal i @ ''*'' @ str_nat i @ ''. '' @ get_or (user_name entry) ''Unknown'' @ ''*'' @
                 newline @ ''   Score: '' @ format_score (get_or (score entry) (PyInt 0)) @ ''  ('' @
                 str_int (get_or (correct_answers entry) 0) @ ''/'' @ str_int 10 @ '' correct)'' @
                 newline @
                 ''   Time: '' @ format_time (get_or (completion_time entry) (PyInt 0)) @
                 newline @ newline)
               (zip [1..<Suc 5]
                  [example_results ! 3, example_results ! 4, example_results ! 1,
                   example_results ! 2, example_results ! 0])) @
             ''Use /play to start a new quiz!''), example_fs))"
proof -
  have ne: "[example_results ! 3, example_results ! 4, example_results ! 1,
    example_results ! 2, example_results ! 0] \<noteq> []"
    by simp
  have t3: "total_questions (example_results ! 3) = Some 10"
    by (simp add: example_results_def example_entry_def)
  have t2: "total_questions (example_results ! 2) = Some 12"
    by (simp add: example_results_def example_entry_def)
  have d: "get_or (total_questions (hd [example_results ! 3, example_results ! 4,
    example_results ! 1, example_results ! 2, example_results ! 0])) 0 = 10"
    by (simp add: get_or_def t3)
  have l: "length [example_results ! 3, example_results ! 4,
    example_results ! 1, example_results ! 2, example_results ! 0] = 5"
    by simp
  have m: "\<exists>title.
     generate_leaderboard_message example_fs None None =
       (Inr (chart_icon @ '' *Leaderboard: '' @ title @ ''* '' @ chart_icon @ newline @ newline @
             concat (map (\<lambda>(i, entry).
                 medal i @ ''*'' @ str_nat i @ ''. '' @ get_or (user_name entry) ''Unknown'' @ ''*'' @
                 newline @ ''   Score: '' @ format_score (get_or (score entry) (PyInt 0)) @ ''  ('' @
                 str_int (get_or (correct_answers entry) 0) @ ''/'' @ str_int 10 @ '' correct)'' @
                 newline @
                 ''   Time: '' @ format_time (get_or (completion_time entry) (PyInt 0)) @
                 newline @ newline)
               (zip [1..<Suc 5]
                  [example_results ! 3, example_results ! 4, example_results ! 1,
                   example_results ! 2, example_results ! 0])) @
             ''Use /play to start a new quiz!''), example_fs)"
    using generate_leaderboard_message_denominator [OF example_view_all ne, of None]
    unfolding d l .
  from example_view_all ne t3 t2 m show ?thesis by blast
qed

end
